theory Spec2Isabelle
  imports Main "HOL-Library.Word"
begin

unbundle bit_operations_syntax

section \<open>The machine: 64-bit addresses, byte-addressed memory, observable events\<close>

text \<open>
  \<^verbatim>\<open>size_t\<close> and \<^verbatim>\<open>uintptr_t\<close> are 64-bit unsigned integers (the 64-bit
  platform the benchmark targets): \<open>+\<close> and \<open>-\<close> wrap modulo \<open>2 ^ 64\<close>.
  A \<^verbatim>\<open>void*\<close> is its numeric address; the null pointer is address 0.
\<close>

type_synonym size_t = "64 word"
type_synonym uintptr_t = "64 word"
type_synonym byte = "8 word"

text \<open>
  A clock reading, a duration and a microsecond count are signed 64-bit tick counts
  (the representation type of the \<^verbatim>\<open>std::chrono\<close> durations): the bits are a
  \<open>64 word\<close>, read by \<open>sint\<close>, and a difference wraps modulo \<open>2 ^ 64\<close>.
\<close>

type_synonym ticks = "64 word"

definition sizeof_ptr :: size_t where
  "sizeof_ptr = 8"

text \<open>
  What the program does to the outside world, in order: the calls it makes to the
  platform allocator, its pointer-sized memory accesses and its clock readings.
\<close>

datatype event =
    Malloc size_t uintptr_t
  | AlignedAlloc size_t size_t uintptr_t
  | Free uintptr_t
  | Store uintptr_t uintptr_t
  | Load uintptr_t uintptr_t
  | Now ticks

record machine =
  mem :: "uintptr_t \<Rightarrow> byte"
  trace :: "event list"
  out :: string

text \<open>
  The platform is not part of the repository: \<^verbatim>\<open>malloc\<close>, \<^verbatim>\<open>std::aligned_alloc\<close>,
  the clock and the conversion of a clock difference to a microsecond count are
  parameters. Each may depend on everything that happened before (the machine).
\<close>

record platform =
  malloc_fn :: "machine \<Rightarrow> size_t \<Rightarrow> uintptr_t"
  aligned_alloc_fn :: "machine \<Rightarrow> size_t \<Rightarrow> size_t \<Rightarrow> uintptr_t"
  clock_fn :: "machine \<Rightarrow> ticks"
  to_microseconds :: "ticks \<Rightarrow> ticks"

definition emit :: "event \<Rightarrow> machine \<Rightarrow> machine" where
  "emit e s = s\<lparr>trace := trace s @ [e]\<rparr>"

definition malloc :: "platform \<Rightarrow> machine \<Rightarrow> size_t \<Rightarrow> uintptr_t \<times> machine" where
  "malloc pf s n = (let p = malloc_fn pf s n in (p, emit (Malloc n p) s))"

definition std_aligned_alloc ::
  "platform \<Rightarrow> machine \<Rightarrow> size_t \<Rightarrow> size_t \<Rightarrow> uintptr_t \<times> machine" where
  "std_aligned_alloc pf s alignment sz =
     (let p = aligned_alloc_fn pf s alignment sz in (p, emit (AlignedAlloc alignment sz p) s))"

definition free :: "machine \<Rightarrow> uintptr_t \<Rightarrow> machine" where
  "free s p = emit (Free p) s"

subsection \<open>Pointer-sized stores and loads\<close>

text \<open>
  A pointer occupies \<open>sizeof_ptr\<close> consecutive bytes, least significant byte first.
  Addresses wrap: the byte after address \<open>2 ^ 64 - 1\<close> is address 0.
\<close>

definition byte_at :: "uintptr_t \<Rightarrow> nat \<Rightarrow> byte" where
  "byte_at v i = ucast (drop_bit (8 * i) v)"

definition write_ptr :: "(uintptr_t \<Rightarrow> byte) \<Rightarrow> uintptr_t \<Rightarrow> uintptr_t \<Rightarrow> (uintptr_t \<Rightarrow> byte)" where
  "write_ptr m a v = (\<lambda>x. if unat (x - a) < 8 then byte_at v (unat (x - a)) else m x)"

fun read_le :: "(uintptr_t \<Rightarrow> byte) \<Rightarrow> uintptr_t \<Rightarrow> nat \<Rightarrow> uintptr_t" where
  "read_le m a 0 = 0"
| "read_le m a (Suc n) = ucast (m a) OR push_bit 8 (read_le m (a + 1) n)"

definition read_ptr :: "(uintptr_t \<Rightarrow> byte) \<Rightarrow> uintptr_t \<Rightarrow> uintptr_t" where
  "read_ptr m a = read_le m a 8"

definition store_ptr :: "machine \<Rightarrow> uintptr_t \<Rightarrow> uintptr_t \<Rightarrow> machine" where
  "store_ptr s a v = emit (Store a v) (s\<lparr>mem := write_ptr (mem s) a v\<rparr>)"

definition load_ptr :: "machine \<Rightarrow> uintptr_t \<Rightarrow> uintptr_t \<times> machine" where
  "load_ptr s a = (let v = read_ptr (mem s) a in (v, emit (Load a v) s))"

section \<open>The aligned allocator (benchmark.cpp, lines 6 to 27)\<close>

text \<open>Line 8: the number of bytes asked of \<^verbatim>\<open>malloc\<close>, in \<^verbatim>\<open>size_t\<close> arithmetic.\<close>

definition raw_request :: "size_t \<Rightarrow> size_t \<Rightarrow> size_t" where
  "raw_request sz alignment = sz + alignment + sizeof_ptr"

text \<open>Line 12: the aligned address, in \<^verbatim>\<open>uintptr_t\<close> arithmetic.\<close>

definition aligned_addr :: "uintptr_t \<Rightarrow> size_t \<Rightarrow> uintptr_t" where
  "aligned_addr raw_mem alignment = (raw_mem + alignment + sizeof_ptr) AND NOT (alignment - 1)"

text \<open>
  \<^verbatim>\<open>reinterpret_cast<void**>(aligned_addr)[-1]\<close> is the pointer-sized slot at
  address \<open>aligned_addr - sizeof_ptr\<close>.
\<close>

definition aligned_malloc :: "platform \<Rightarrow> machine \<Rightarrow> size_t \<Rightarrow> size_t \<Rightarrow> uintptr_t \<times> machine" where
  "aligned_malloc pf s sz alignment =
     (let (raw_mem, s1) = malloc pf s (raw_request sz alignment)
      in if raw_mem = 0 then (0, s1)
         else let a = aligned_addr raw_mem alignment;
                  s2 = store_ptr s1 (a - sizeof_ptr) raw_mem
              in (a, s2))"

definition aligned_free :: "machine \<Rightarrow> uintptr_t \<Rightarrow> machine" where
  "aligned_free s aligned_mem =
     (if aligned_mem \<noteq> 0
      then let (raw_mem, s1) = load_ptr s (aligned_mem - sizeof_ptr) in free s1 raw_mem
      else s)"

section \<open>The benchmark driver (benchmark.cpp, lines 32 to 67)\<close>

text \<open>\<^verbatim>\<open>high_resolution_clock::now()\<close>: a reading of the platform clock, in clock ticks.\<close>

definition now :: "platform \<Rightarrow> machine \<Rightarrow> ticks \<times> machine" where
  "now pf s = (let t = clock_fn pf s in (t, emit (Now t) s))"

text \<open>\<^verbatim>\<open>std::cout << ...\<close> appends to standard output; an integer is written in decimal.\<close>

definition print :: "string \<Rightarrow> machine \<Rightarrow> machine" where
  "print str s = s\<lparr>out := out s @ str\<rparr>"

definition digit :: "nat \<Rightarrow> char" where
  "digit d = ''0123456789'' ! d"

function show_nat :: "nat \<Rightarrow> string" where
  "show_nat n = (if n < 10 then [digit n] else show_nat (n div 10) @ [digit (n mod 10)])"
  by pat_completeness auto
termination
  by (relation "measure id") auto

declare show_nat.simps [simp del]

definition show_int :: "int \<Rightarrow> string" where
  "show_int i = (if i < 0 then ''-'' @ show_nat (nat (- i)) else show_nat (nat i))"

text \<open>
  One report: \<^verbatim>\<open>std::cout << label << count << " us\n"\<close>, where \<open>count\<close> is
  \<^verbatim>\<open>duration_cast<microseconds>(end - start).count()\<close>, a signed 64-bit integer
  written in decimal.
\<close>

definition timing_line :: "string \<Rightarrow> int \<Rightarrow> string" where
  "timing_line label us = label @ show_int us @ '' us'' @ [CHR 0x0A]"

text \<open>
  \<^verbatim>\<open>for (int i = 0; i < iterations; ++i) body\<close>. The counter stays below
  \<open>iterations\<close>, so the increment never overflows \<^verbatim>\<open>int\<close>.
\<close>

function for_loop :: "(machine \<Rightarrow> machine) \<Rightarrow> int \<Rightarrow> int \<Rightarrow> machine \<Rightarrow> machine" where
  "for_loop body i iterations s =
     (if i < iterations then for_loop body (i + 1) iterations (body s) else s)"
  by pat_completeness auto
termination
  by (relation "measure (\<lambda>(body, i, iterations, s). nat (iterations - i))") auto

declare for_loop.simps [simp del]

text \<open>The two loop bodies: lines 38 to 39 and lines 49 to 50.\<close>

definition reference_round :: "platform \<Rightarrow> size_t \<Rightarrow> size_t \<Rightarrow> machine \<Rightarrow> machine" where
  "reference_round pf sz alignment s =
     (let (ptr, s1) = std_aligned_alloc pf s alignment sz in free s1 ptr)"

definition custom_round :: "platform \<Rightarrow> size_t \<Rightarrow> size_t \<Rightarrow> machine \<Rightarrow> machine" where
  "custom_round pf sz alignment s =
     (let (ptr, s1) = aligned_malloc pf s sz alignment in aligned_free s1 ptr)"

definition benchmark :: "platform \<Rightarrow> size_t \<Rightarrow> size_t \<Rightarrow> int \<Rightarrow> machine \<Rightarrow> machine" where
  "benchmark pf sz alignment iterations s =
     (let (start, s1) = now pf s;
          s2 = for_loop (reference_round pf sz alignment) 0 iterations s1;
          (finish, s3) = now pf s2;
          s4 = print (timing_line ''std::aligned_alloc: ''
                        (sint (to_microseconds pf (finish - start)))) s3;
          (start', s5) = now pf s4;
          s6 = for_loop (custom_round pf sz alignment) 0 iterations s5;
          (finish', s7) = now pf s6
      in print (timing_line ''aligned_malloc: ''
                  (sint (to_microseconds pf (finish' - start')))) s7)"

text \<open>\<^verbatim>\<open>main\<close> returns its exit code and the machine it leaves behind.\<close>

definition main :: "platform \<Rightarrow> machine \<Rightarrow> int \<times> machine" where
  "main pf s =
     (let s1 = benchmark pf 64 16 100000 s;
          s2 = benchmark pf 128 32 100000 s1;
          s3 = benchmark pf 256 64 100000 s2;
          s4 = benchmark pf 1024 64 100000 s3;
          s5 = benchmark pf (1024 * 1024) 64 1000 s4
      in (0, s5))"

section \<open>Vocabulary of the properties\<close>

text \<open>An alignment the allocator is meant for: one of \<open>1, 2, 4, \<dots>, 2 ^ 63\<close>.\<close>

definition is_power_of_two :: "size_t \<Rightarrow> bool" where
  "is_power_of_two a = (\<exists>k \<in> {0..<64}. a = 2 ^ k)"

text \<open>
  What a successful \<^verbatim>\<open>malloc(n)\<close> hands out: a non-null address \<open>p\<close> whose \<open>n\<close>
  bytes, and the address one past them, lie in the address space (C requires the
  one-past-the-end address of an object to exist and to compare greater).
\<close>

definition valid_block :: "uintptr_t \<Rightarrow> size_t \<Rightarrow> bool" where
  "valid_block p n = (p \<noteq> 0 \<and> unat p + unat n < 2 ^ 64)"

text \<open>The addresses of the \<open>n\<close> bytes starting at \<open>p\<close> (wrapping like the hardware).\<close>

definition block_bytes :: "uintptr_t \<Rightarrow> nat \<Rightarrow> uintptr_t set" where
  "block_bytes p n = (\<lambda>i. p + of_nat i) ` {0..<n}"

text \<open>The requests the platform allocators received, in order.\<close>

fun malloc_requests :: "event list \<Rightarrow> size_t list" where
  "malloc_requests [] = []"
| "malloc_requests (Malloc n p # es) = n # malloc_requests es"
| "malloc_requests (e # es) = malloc_requests es"

fun aligned_alloc_requests :: "event list \<Rightarrow> (size_t \<times> size_t) list" where
  "aligned_alloc_requests [] = []"
| "aligned_alloc_requests (AlignedAlloc alignment sz p # es) = (alignment, sz) # aligned_alloc_requests es"
| "aligned_alloc_requests (e # es) = aligned_alloc_requests es"

text \<open>The number of lines written: the line feeds in the output.\<close>

definition line_count :: "string \<Rightarrow> nat" where
  "line_count str = length (filter (\<lambda>c. c = CHR 0x0A) str)"

text \<open>
  Reading a decimal integer back: an optional minus sign, then one or more digits.
\<close>

definition digit_value :: "char \<Rightarrow> nat option" where
  "digit_value c = (if c \<in> set ''0123456789'' then Some (of_char c - 48) else None)"

fun read_digits :: "nat \<Rightarrow> string \<Rightarrow> nat option" where
  "read_digits acc [] = Some acc"
| "read_digits acc (c # cs) =
     (case digit_value c of None \<Rightarrow> None | Some d \<Rightarrow> read_digits (10 * acc + d) cs)"

definition read_nat :: "string \<Rightarrow> nat option" where
  "read_nat str = (if str = [] then None else read_digits 0 str)"

definition read_int :: "string \<Rightarrow> int option" where
  "read_int str =
     (case str of
        [] \<Rightarrow> None
      | c # cs \<Rightarrow> if c = CHR ''-'' then map_option (\<lambda>n. - int n) (read_nat cs)
                 else map_option int (read_nat str))"

text \<open>
  The driver as the specification words it (sections 4.3 and 6), to be compared with
  \<open>main\<close>: the fixed, ordered matrix of (size, alignment, iterations) rows.
\<close>

definition spec_matrix :: "(size_t \<times> size_t \<times> nat) list" where
  "spec_matrix =
     [(64, 16, 100000), (128, 32, 100000), (256, 64, 100000), (1024, 64, 100000),
      (1048576, 64, 1000)]"

text \<open>The reference facility: allocate, then immediately free what was returned.\<close>

definition spec_reference_pair :: "platform \<Rightarrow> size_t \<Rightarrow> size_t \<Rightarrow> machine \<Rightarrow> machine" where
  "spec_reference_pair pf sz alignment s =
     (let p = aligned_alloc_fn pf s alignment sz
      in s\<lparr>trace := trace s @ [AlignedAlloc alignment sz p, Free p]\<rparr>)"

text \<open>The custom primitive: \<open>aligned_malloc\<close>, then immediately \<open>aligned_free\<close> of its result.\<close>

definition spec_custom_pair :: "platform \<Rightarrow> size_t \<Rightarrow> size_t \<Rightarrow> machine \<Rightarrow> machine" where
  "spec_custom_pair pf sz alignment s =
     aligned_free (snd (aligned_malloc pf s sz alignment)) (fst (aligned_malloc pf s sz alignment))"

text \<open>
  One timed loop: read the clock, run the allocate/free pair \<open>n\<close> times, read the
  clock again, and write one line: the label, the microseconds elapsed between the
  two readings in decimal, and \<^verbatim>\<open>" us"\<close>.
\<close>

definition spec_timed_loop ::
  "platform \<Rightarrow> string \<Rightarrow> (machine \<Rightarrow> machine) \<Rightarrow> nat \<Rightarrow> machine \<Rightarrow> machine" where
  "spec_timed_loop pf label pair n s =
     (let start = clock_fn pf s;
          s1 = (pair ^^ n) (s\<lparr>trace := trace s @ [Now start]\<rparr>);
          finish = clock_fn pf s1;
          elapsed = sint (to_microseconds pf (finish - start))
      in s1\<lparr>trace := trace s1 @ [Now finish],
            out := out s1 @ label @ show_int elapsed @ '' us'' @ [CHR 0x0A]\<rparr>)"

text \<open>One row: the reference facility's timed loop first, then the custom primitive's.\<close>

definition spec_row :: "platform \<Rightarrow> size_t \<times> size_t \<times> nat \<Rightarrow> machine \<Rightarrow> machine" where
  "spec_row pf row s =
     (case row of (sz, alignment, n) \<Rightarrow>
        spec_timed_loop pf ''aligned_malloc: '' (spec_custom_pair pf sz alignment) n
          (spec_timed_loop pf ''std::aligned_alloc: '' (spec_reference_pair pf sz alignment) n s))"

text \<open>
  Fixtures for concrete runs: a machine on which nothing has happened yet, and a
  platform whose allocators always answer the same address and whose clock advances
  by 1000 ticks (nanoseconds) per recorded event.
\<close>

definition boot :: machine where
  "boot = \<lparr>mem = (\<lambda>_. 0), trace = [], out = []\<rparr>"

definition fixed_platform :: "uintptr_t \<Rightarrow> platform" where
  "fixed_platform p =
     \<lparr>malloc_fn = (\<lambda>_ _. p), aligned_alloc_fn = (\<lambda>_ _ _. p),
      clock_fn = (\<lambda>s. 1000 * of_nat (length (trace s))),
      to_microseconds = (\<lambda>d. of_int (sgn (sint d) * (\<bar>sint d\<bar> div 1000)))\<rparr>"

section \<open>Bit-level facts\<close>

lemma low_byte_step:
  "ucast (ucast (w :: 64 word) :: byte) OR push_bit 8 (take_bit k (drop_bit 8 w)) = take_bit (8 + k) w"
  by (rule bit_eqI) (auto simp add: bit_simps)

lemma read_le_bytes:
  "(\<And>i. i < n \<Longrightarrow> m (a + of_nat i) = byte_at v (j + i)) \<Longrightarrow>
   read_le m a n = take_bit (8 * n) (drop_bit (8 * j) v)"
proof (induction n arbitrary: a j)
  case 0
  then show ?case by simp
next
  case (Suc n)
  have head: "m a = byte_at v j" using Suc.prems [of 0] by simp
  have tail: "read_le m (a + 1) n = take_bit (8 * n) (drop_bit (8 * Suc j) v)"
  proof (rule Suc.IH)
    fix i assume "i < n"
    then show "m (a + 1 + of_nat i) = byte_at v (Suc j + i)"
      using Suc.prems [of "Suc i"] by (simp add: add.assoc)
  qed
  have "drop_bit (8 * Suc j) v = drop_bit 8 (drop_bit (8 * j) v)"
    by (simp add: drop_bit_drop_bit add.commute)
  then show ?case
    using head tail low_byte_step [of "drop_bit (8 * j) v" "8 * n"]
    by (simp add: byte_at_def)
qed

lemma read_write_ptr: "read_ptr (write_ptr m a v) a = v"
proof -
  have "read_le (write_ptr m a v) a 8 = take_bit (8 * 8) (drop_bit (8 * 0) v)"
    by (rule read_le_bytes) (simp add: write_ptr_def unat_of_nat)
  then show ?thesis by (simp add: read_ptr_def take_bit_word_eq_self)
qed

lemma and_not_mask_eq: "(x :: 64 word) AND NOT (mask k) = x - (x AND mask k)"
  by (metis (no_types, lifting) and.commute bit.conj_xor_distrib2
    diff_0_right disjunctive_and_not_eq_xor disjunctive_diff_eq_and_not
    word_and_not word_bw_lcs(1) word_not_not)

lemma unat_and_mask_mod: "unat ((x::64 word) AND mask k) = unat x mod 2 ^ k"
proof -
  have "x AND mask k = take_bit k x" by (simp only: take_bit_eq_mask)
  then have "unat (x AND mask k) = take_bit k (unat x)" by (simp only: unsigned_take_bit_eq)
  then show ?thesis by (simp only: take_bit_eq_mod)
qed

lemma unat_and_not_mask: "unat ((x::64 word) AND NOT (mask k)) = (unat x div 2 ^ k) * 2 ^ k"
proof -
  have le: "x AND mask k \<le> x" by (rule word_and_le2)
  have "unat (x AND NOT (mask k)) = unat x - unat (x AND mask k)"
    unfolding and_not_mask_eq using le by (simp add: unat_sub)
  also have "\<dots> = unat x - unat x mod 2 ^ k" by (simp only: unat_and_mask_mod)
  also have "\<dots> = (unat x div 2 ^ k) * 2 ^ k" by (simp add: minus_mod_eq_div_mult)
  finally show ?thesis .
qed

lemma unat_pow2: "k < 64 \<Longrightarrow> unat ((2::64 word) ^ k) = 2 ^ k"
proof -
  assume k: "k < 64"
  have a: "unat (of_nat (2 ^ k) :: 64 word) = 2 ^ k mod 2 ^ LENGTH(64)"
    by (rule unat_of_nat)
  have b: "(of_nat (2 ^ k) :: 64 word) = 2 ^ k" by simp
  have "unat ((2::64 word) ^ k) = (2 ^ k) mod 2 ^ 64"
    using a unfolding b by simp
  moreover have "(2::nat) ^ k < 2 ^ 64" using k by (intro power_strict_increasing) simp_all
  ultimately show ?thesis by simp
qed

lemma is_power_of_twoE:
  assumes "is_power_of_two a"
  obtains k where "k < 64" and "a = 2 ^ k" and "unat a = 2 ^ k"
  using assms unat_pow2 by (auto simp: is_power_of_two_def)

lemma aligned_addr_pow2:
  "aligned_addr r (2 ^ k) = (r + 2 ^ k + sizeof_ptr) AND NOT (mask k)"
  by (simp add: aligned_addr_def mask_eq_decr_exp)

lemma unat_aligned_addr:
  "unat (aligned_addr r (2 ^ k)) = (unat (r + 2 ^ k + sizeof_ptr) div 2 ^ k) * 2 ^ k"
  by (simp only: aligned_addr_pow2 unat_and_not_mask)

lemma aligned_addr_mod:
  assumes "is_power_of_two a"
  shows "unat (aligned_addr r a) mod unat a = 0"
proof -
  from assms obtain k where k: "k < 64" and a: "a = 2 ^ k"
    by (rule is_power_of_twoE)
  show ?thesis unfolding a by (simp add: unat_aligned_addr unat_pow2 [OF k])
qed

section \<open>Address arithmetic without wrap-around\<close>

lemma unat_sum_no_wrap:
  assumes "unat r + unat a + 8 < (2::nat) ^ 64"
  shows "unat (r + a + sizeof_ptr :: 64 word) = unat r + unat a + 8"
proof -
  have "unat (r + a + sizeof_ptr :: 64 word) = (unat r + unat a + 8) mod 2 ^ 64"
    by (simp add: unat_word_ariths sizeof_ptr_def mod_simps)
  then show ?thesis using assms by simp
qed

lemma unat_raw_request:
  "unat sz + unat alignment + 8 < (2::nat) ^ 64 \<Longrightarrow>
   unat (raw_request sz alignment) = unat sz + unat alignment + 8"
  unfolding raw_request_def by (rule unat_sum_no_wrap)

lemma unat_raw_request_mod:
  "unat (raw_request sz alignment) = (unat sz + unat alignment + 8) mod 2 ^ 64"
  by (simp add: raw_request_def unat_word_ariths sizeof_ptr_def mod_simps)

lemma round_down_lower:
  fixes x :: nat assumes "0 < d"
  shows "x < (x div d) * d + d"
  using assms by (metis mod_less_divisor div_mult_mod_eq add_less_cancel_left)

lemma headroom:
  assumes p: "is_power_of_two a" and nw: "unat r + unat a + 8 < (2::nat) ^ 64"
  shows "unat (aligned_addr r a) = ((unat r + unat a + 8) div unat a) * unat a"
    and "unat r + 8 < unat (aligned_addr r a)"
    and "unat (aligned_addr r a) \<le> unat r + unat a + 8"
proof -
  from p obtain k where k: "k < 64" and a: "a = 2 ^ k" and ua: "unat a = 2 ^ k"
    by (rule is_power_of_twoE)
  let ?x = "unat r + unat a + 8"
  show h: "unat (aligned_addr r a) = (?x div unat a) * unat a"
    using unat_aligned_addr [of r k] unat_sum_no_wrap [OF nw] by (simp add: a unat_pow2 [OF k])
  have "?x < (?x div unat a) * unat a + unat a" by (rule round_down_lower) (simp add: ua)
  then show "unat r + 8 < unat (aligned_addr r a)" unfolding h by linarith
  show "unat (aligned_addr r a) \<le> unat r + unat a + 8"
    unfolding h by simp
qed

lemma in_block_bytes: "x \<in> block_bytes p n \<longleftrightarrow> unat (x - p) < n"
proof
  assume "x \<in> block_bytes p n"
  then obtain i where i: "i < n" and x: "x = p + of_nat i"
    by (auto simp: block_bytes_def)
  have "unat (x - p) = i mod 2 ^ 64" by (simp add: x unat_of_nat)
  also have "\<dots> \<le> i" by simp
  finally show "unat (x - p) < n" using i by simp
next
  assume "unat (x - p) < n"
  moreover have "x = p + of_nat (unat (x - p))" by simp
  ultimately show "x \<in> block_bytes p n"
    unfolding block_bytes_def by (metis (mono_tags) atLeastLessThan_iff image_eqI zero_le)
qed

lemma write_ptr_frame: "x \<notin> block_bytes a 8 \<Longrightarrow> write_ptr m a v x = m x"
  by (simp add: in_block_bytes write_ptr_def)

lemma unat_diff_le:
  "unat (b :: 64 word) \<le> unat a \<Longrightarrow> unat (a - b) = unat a - unat b"
  by (simp add: unat_sub word_le_nat_alt)

lemma unat_add_le_sum: "unat (a + b :: 64 word) \<le> unat a + unat b"
  by (simp add: unat_word_ariths)

lemma sub_block:
  assumes lo: "unat p \<le> unat q" and hi: "unat q + n \<le> unat p + m"
  shows "block_bytes q n \<subseteq> block_bytes p m"
proof
  fix x assume "x \<in> block_bytes q n"
  then have d: "unat (x - q) < n" by (simp add: in_block_bytes)
  have "x - p = (x - q) + (q - p)" by simp
  then have "unat (x - p) \<le> unat (x - q) + unat (q - p)"
    by (simp only: unat_add_le_sum)
  also have "\<dots> = unat (x - q) + (unat q - unat p)" by (simp add: unat_diff_le [OF lo])
  also have "\<dots> < m" using d lo hi by linarith
  finally show "x \<in> block_bytes p m" by (simp add: in_block_bytes)
qed

lemma adjacent_disjoint:
  assumes "n + 8 \<le> 2 ^ 64"
  shows "block_bytes h n \<inter> block_bytes (h - sizeof_ptr) 8 = {}"
proof -
  have False if a: "unat (x - h) < n" and b: "unat (x - (h - sizeof_ptr)) < 8" for x
  proof -
    have e: "x - (h - sizeof_ptr) = (x - h) + 8" by (simp add: sizeof_ptr_def)
    have u: "unat ((x - h) + 8) = unat (x - h) + 8"
      using a assms by (simp add: unat_word_ariths)
    from b show False unfolding e u by simp
  qed
  then show ?thesis by (auto simp: in_block_bytes)
qed

section \<open>What one call of the allocator does\<close>

lemma aligned_malloc_null:
  "malloc_fn pf s (raw_request sz alignment) = 0 \<Longrightarrow>
   aligned_malloc pf s sz alignment = (0, emit (Malloc (raw_request sz alignment) 0) s)"
  by (simp add: aligned_malloc_def malloc_def)

lemma aligned_malloc_nonnull:
  "malloc_fn pf s (raw_request sz alignment) = r \<Longrightarrow> r \<noteq> 0 \<Longrightarrow>
   aligned_malloc pf s sz alignment =
     (aligned_addr r alignment,
      store_ptr (emit (Malloc (raw_request sz alignment) r) s)
        (aligned_addr r alignment - sizeof_ptr) r)"
  by (simp add: aligned_malloc_def malloc_def Let_def)

lemma malloc_requests_append:
  "malloc_requests (xs @ ys) = malloc_requests xs @ malloc_requests ys"
  by (induction xs rule: malloc_requests.induct) simp_all

lemma aligned_alloc_requests_append:
  "aligned_alloc_requests (xs @ ys) = aligned_alloc_requests xs @ aligned_alloc_requests ys"
  by (induction xs rule: aligned_alloc_requests.induct) simp_all

lemma trace_aligned_malloc:
  "trace (snd (aligned_malloc pf s sz alignment)) =
     trace s @ (let r = malloc_fn pf s (raw_request sz alignment)
                in if r = 0 then [Malloc (raw_request sz alignment) r]
                   else [Malloc (raw_request sz alignment) r, Store (aligned_addr r alignment - sizeof_ptr) r])"
  by (simp add: aligned_malloc_def malloc_def store_ptr_def emit_def Let_def)

lemma malloc_requests_aligned_malloc:
  "malloc_requests (trace (snd (aligned_malloc pf s sz alignment)))
     = malloc_requests (trace s) @ [raw_request sz alignment]"
  by (simp add: trace_aligned_malloc malloc_requests_append Let_def)

lemma unat_raw_request_zero:
  assumes "is_power_of_two alignment"
  shows "unat (raw_request 0 alignment) = unat alignment + 8"
proof -
  from assms obtain k where k: "k < 64" and ua: "unat alignment = 2 ^ k"
    by (rule is_power_of_twoE)
  have "k \<le> 63" using k by simp
  then have "(2::nat) ^ k \<le> 2 ^ 63" by (intro power_increasing) simp_all
  then have "unat (0 :: size_t) + unat alignment + 8 < 2 ^ 64" by (simp add: ua)
  then show ?thesis using unat_raw_request [of 0 alignment] by simp
qed

lemma run_fixed:
  "p \<noteq> 0 \<Longrightarrow> fst (aligned_malloc (fixed_platform p) s sz alignment) = aligned_addr p alignment"
  by (simp add: aligned_malloc_nonnull fixed_platform_def)

text \<open>
  C1 (alignment invariant). For every size and every power-of-two alignment, when the
  raw allocation succeeds, the address returned by \<open>aligned_malloc\<close> is an exact
  multiple of the alignment.
\<close>

theorem aligned_malloc_is_aligned:
  assumes "is_power_of_two alignment"
    and "malloc_fn pf s (raw_request sz alignment) \<noteq> 0"
  shows "unat (fst (aligned_malloc pf s sz alignment)) mod unat alignment = 0"
  using assms by (simp add: aligned_malloc_nonnull aligned_addr_mod)

theorem aligned_malloc_is_aligned_witness:
  "is_power_of_two 16 \<and> malloc_fn (fixed_platform 0x1000) boot (raw_request 64 16) \<noteq> 0
   \<and> unat (fst (aligned_malloc (fixed_platform 0x1000) boot 64 16)) mod unat (16 :: size_t) = 0"
proof -
  have p: "is_power_of_two 16" by code_simp
  have r: "malloc_fn (fixed_platform 0x1000) boot (raw_request 64 16) \<noteq> 0"
    by (simp add: fixed_platform_def)
  show ?thesis using p r aligned_malloc_is_aligned [OF p r] by simp
qed

text \<open>
  C3 (exhaustion). When the raw allocator answers null, \<open>aligned_malloc\<close> returns null
  to its caller; the call to \<open>malloc\<close> is the only thing it did: no byte of memory
  is written, nothing is stored or freed, and it returns normally.
\<close>

theorem aligned_malloc_exhausted:
  assumes "malloc_fn pf s (raw_request sz alignment) = 0"
  shows "aligned_malloc pf s sz alignment
           = (0, s\<lparr>trace := trace s @ [Malloc (raw_request sz alignment) 0]\<rparr>)
       \<and> mem (snd (aligned_malloc pf s sz alignment)) = mem s
       \<and> out (snd (aligned_malloc pf s sz alignment)) = out s"
  using assms by (simp add: aligned_malloc_null emit_def)

theorem aligned_malloc_exhausted_witness:
  "malloc_fn (fixed_platform 0) boot (raw_request 64 16) = 0
   \<and> aligned_malloc (fixed_platform 0) boot 64 16
         = (0, boot\<lparr>trace := trace boot @ [Malloc (raw_request 64 16) 0]\<rparr>)"
proof -
  have r: "malloc_fn (fixed_platform 0) boot (raw_request 64 16) = 0"
    by (simp add: fixed_platform_def)
  show ?thesis using r aligned_malloc_exhausted [OF r] by simp
qed

text \<open>
  C6 (null safety). \<open>aligned_free\<close> of the null pointer leaves the machine exactly as
  it was: no load, no call to \<open>free\<close>, no change of memory or output.
\<close>

theorem aligned_free_null: "aligned_free s 0 = s"
  by (simp add: aligned_free_def)

text \<open>
  C2 (recoverability and round trip). When \<open>aligned_malloc\<close> returns a non-null
  handle \<open>h\<close>, it called \<open>malloc\<close> once and stored the address that call returned
  in the pointer-sized slot at \<open>h - sizeof_ptr\<close>; reading that slot gives the raw
  address back, and \<open>aligned_free h\<close> loads it and passes exactly it to \<open>free\<close>.
\<close>

theorem aligned_free_roundtrip:
  assumes "aligned_malloc pf s sz alignment = (h, s')" and "h \<noteq> 0"
  shows "trace s' = trace s @ [Malloc (raw_request sz alignment) (malloc_fn pf s (raw_request sz alignment)),
                               Store (h - sizeof_ptr) (malloc_fn pf s (raw_request sz alignment))]
    \<and> read_ptr (mem s') (h - sizeof_ptr) = malloc_fn pf s (raw_request sz alignment)
    \<and> aligned_free s' h =
          s'\<lparr>trace := trace s' @ [Load (h - sizeof_ptr) (malloc_fn pf s (raw_request sz alignment)),
                                     Free (malloc_fn pf s (raw_request sz alignment))]\<rparr>"
proof -
  let ?r = "malloc_fn pf s (raw_request sz alignment)"
  have r: "?r \<noteq> 0" using assms by (auto simp: aligned_malloc_null)
  have eq: "h = aligned_addr ?r alignment"
     "s' = store_ptr (emit (Malloc (raw_request sz alignment) ?r) s) (h - sizeof_ptr) ?r"
    using assms(1) aligned_malloc_nonnull [OF refl r] by auto
  have tr: "trace s' = trace s @ [Malloc (raw_request sz alignment) ?r, Store (h - sizeof_ptr) ?r]"
    by (subst eq(2)) (simp add: store_ptr_def emit_def)
  have rd: "read_ptr (mem s') (h - sizeof_ptr) = ?r"
    by (subst eq(2)) (simp add: store_ptr_def emit_def read_write_ptr)
  have "aligned_free s' h = s'\<lparr>trace := trace s' @ [Load (h - sizeof_ptr) ?r, Free ?r]\<rparr>"
    using assms(2) rd by (simp add: aligned_free_def load_ptr_def free_def emit_def Let_def)
  with tr rd show ?thesis by simp
qed

theorem aligned_free_roundtrip_witness:
  "fst (aligned_malloc (fixed_platform 0x1000) boot 64 16) \<noteq> 0
   \<and> read_ptr (mem (snd (aligned_malloc (fixed_platform 0x1000) boot 64 16)))
         (fst (aligned_malloc (fixed_platform 0x1000) boot 64 16) - sizeof_ptr) = 0x1000
   \<and> trace (aligned_free (snd (aligned_malloc (fixed_platform 0x1000) boot 64 16))
         (fst (aligned_malloc (fixed_platform 0x1000) boot 64 16)))
       = [Malloc 88 0x1000, Store 0x1008 0x1000, Load 0x1008 0x1000, Free 0x1000]"
proof -
  let ?run = "aligned_malloc (fixed_platform 0x1000) boot 64 16"
  have h: "fst ?run = 0x1010"
    by (simp add: run_fixed aligned_addr_def sizeof_ptr_def)
  have nz: "fst ?run \<noteq> 0" by (simp add: h)
  have m: "malloc_fn (fixed_platform 0x1000) boot n = 0x1000" for n
    by (simp add: fixed_platform_def)
  have tb: "trace boot = []" by (simp add: boot_def)
  have q: "raw_request 64 16 = 88" by (simp add: raw_request_def sizeof_ptr_def)
  have pr: "?run = (fst ?run, snd ?run)" by simp
  show ?thesis
    using nz aligned_free_roundtrip [OF pr nz]
    by (simp add: m q h tb sizeof_ptr_def)
qed

lemma no_wrap_below_half:
  assumes "is_power_of_two alignment" and "unat raw_mem < 2 ^ 63 - 8"
  shows "unat raw_mem + unat alignment + 8 < 2 ^ 64"
proof -
  from assms(1) obtain k where k: "k < 64" and ua: "unat alignment = 2 ^ k"
    by (rule is_power_of_twoE)
  have "k \<le> 63" using k by simp
  then have "(2::nat) ^ k \<le> 2 ^ 63" by (intro power_increasing) simp_all
  then show ?thesis using assms(2) by (simp add: ua)
qed

lemma no_wrap_valid_block:
  assumes "unat sz + unat alignment + 8 < 2 ^ 64"
    and "valid_block raw_mem (raw_request sz alignment)"
  shows "unat raw_mem + unat alignment + 8 < 2 ^ 64"
  using assms(2) unat_raw_request [OF assms(1)] by (simp add: valid_block_def)

text \<open>
  C4 (headroom). For every power-of-two alignment and every non-null raw address
  returned by the allocator, the handle is \<open>raw_mem + alignment + sizeof_ptr\<close> with its
  low bits masked off, which is that sum rounded down to a multiple of the alignment;
  it lies more than \<open>sizeof_ptr\<close> bytes above the raw address and at most
  \<open>alignment + sizeof_ptr\<close> above it, so the metadata slot lies between the raw
  address and the handle. A raw address returned by the allocator has the
  \<open>alignment + sizeof_ptr\<close> bytes above it inside the address space: this is so for
  every address below \<open>2 ^ 63 - 8\<close>, whatever the size, and for every valid block of
  a request that did not wrap.
\<close>

theorem aligned_malloc_headroom:
  assumes p: "is_power_of_two alignment"
    and m: "malloc_fn pf s (raw_request sz alignment) = raw_mem"
    and nz: "raw_mem \<noteq> 0"
    and nw: "unat raw_mem + unat alignment + 8 < 2 ^ 64"
  shows "fst (aligned_malloc pf s sz alignment)
           = (raw_mem + alignment + sizeof_ptr) AND NOT (alignment - 1)
       \<and> unat (fst (aligned_malloc pf s sz alignment))
           = ((unat raw_mem + unat alignment + 8) div unat alignment) * unat alignment
       \<and> unat raw_mem + 8 < unat (fst (aligned_malloc pf s sz alignment))
       \<and> unat (fst (aligned_malloc pf s sz alignment)) \<le> unat raw_mem + unat alignment + 8
       \<and> block_bytes (fst (aligned_malloc pf s sz alignment) - sizeof_ptr) 8
           \<subseteq> block_bytes raw_mem (unat alignment + 8)"
proof -
  have h: "fst (aligned_malloc pf s sz alignment) = aligned_addr raw_mem alignment"
    by (simp add: aligned_malloc_nonnull [OF m nz])
  note hr = headroom [OF p nw]
  have u: "unat (aligned_addr raw_mem alignment - sizeof_ptr) = unat (aligned_addr raw_mem alignment) - 8"
    using hr(2) by (simp add: sizeof_ptr_def unat_sub word_le_nat_alt)
  have sub: "block_bytes (aligned_addr raw_mem alignment - sizeof_ptr) 8
           \<subseteq> block_bytes raw_mem (unat alignment + 8)"
    by (rule sub_block) (use hr(2,3) u in linarith)+
  show ?thesis unfolding h using hr sub by (simp add: aligned_addr_def)
qed

theorem aligned_malloc_headroom_witness:
  "is_power_of_two 16 \<and> malloc_fn (fixed_platform 0x1001) boot (raw_request 64 16) = 0x1001
   \<and> (0x1001 :: uintptr_t) \<noteq> 0 \<and> unat (0x1001 :: uintptr_t) + unat (16 :: size_t) + 8 < (2::nat) ^ 64
   \<and> fst (aligned_malloc (fixed_platform 0x1001) boot 64 16) = 0x1010
   \<and> unat (0x1001 :: uintptr_t) + 8 < unat (fst (aligned_malloc (fixed_platform 0x1001) boot 64 16))"
proof -
  have p: "is_power_of_two 16" by code_simp
  have m: "malloc_fn (fixed_platform 0x1001) boot (raw_request 64 16) = 0x1001"
    by (simp add: fixed_platform_def)
  have nz: "(0x1001 :: uintptr_t) \<noteq> 0" by simp
  have nw: "unat (0x1001 :: uintptr_t) + unat (16 :: size_t) + 8 < (2::nat) ^ 64" by simp
  show ?thesis
    using p m nz nw aligned_malloc_headroom [OF p m nz nw]
    by (simp add: sizeof_ptr_def)
qed

text \<open>
  C5 (non-overlap and bounds), as amended. For every power-of-two alignment and
  every size such that \<open>size + alignment + sizeof_ptr\<close> does not wrap, on a valid raw
  block of that many bytes: the payload bytes and the metadata bytes are disjoint,
  both lie inside the raw block, \<open>h + size\<close> does not exceed the end of the raw
  block, and the metadata store leaves every payload byte as it was.
\<close>

theorem payload_within_raw_block:
  assumes p: "is_power_of_two alignment"
    and nwr: "unat sz + unat alignment + 8 < 2 ^ 64"
    and m: "malloc_fn pf s (raw_request sz alignment) = raw_mem"
    and v: "valid_block raw_mem (raw_request sz alignment)"
    and run: "aligned_malloc pf s sz alignment = (h, s')"
  shows "block_bytes h (unat sz) \<inter> block_bytes (h - sizeof_ptr) 8 = {}
       \<and> block_bytes h (unat sz) \<subseteq> block_bytes raw_mem (unat (raw_request sz alignment))
       \<and> block_bytes (h - sizeof_ptr) 8 \<subseteq> block_bytes raw_mem (unat (raw_request sz alignment))
       \<and> unat h + unat sz \<le> unat raw_mem + unat (raw_request sz alignment)
       \<and> (\<forall>x \<in> block_bytes h (unat sz). mem s' x = mem s x)"
proof -
  have nz: "raw_mem \<noteq> 0" using v by (simp add: valid_block_def)
  have req: "unat (raw_request sz alignment) = unat sz + unat alignment + 8"
    by (rule unat_raw_request [OF nwr])
  have nw: "unat raw_mem + unat alignment + 8 < 2 ^ 64"
    using v req by (simp add: valid_block_def)
  have h: "h = aligned_addr raw_mem alignment"
    and s': "s' = store_ptr (emit (Malloc (raw_request sz alignment) raw_mem) s) (h - sizeof_ptr) raw_mem"
    using run aligned_malloc_nonnull [OF m nz] by auto
  note hr = headroom [OF p nw, folded h]
  have u: "unat (h - sizeof_ptr) = unat h - 8"
    using hr(2) by (simp add: sizeof_ptr_def unat_sub word_le_nat_alt)
  have disj: "block_bytes h (unat sz) \<inter> block_bytes (h - sizeof_ptr) 8 = {}"
    by (rule adjacent_disjoint) (use nwr in simp)
  have pay: "block_bytes h (unat sz) \<subseteq> block_bytes raw_mem (unat (raw_request sz alignment))"
    by (rule sub_block) (use hr(2,3) req in linarith)+
  have meta: "block_bytes (h - sizeof_ptr) 8 \<subseteq> block_bytes raw_mem (unat (raw_request sz alignment))"
    by (rule sub_block) (use hr(2,3) u req in linarith)+
  have bound: "unat h + unat sz \<le> unat raw_mem + unat (raw_request sz alignment)"
    using hr(3) req by linarith
  have frame: "\<forall>x \<in> block_bytes h (unat sz). mem s' x = mem s x"
  proof
    fix x assume "x \<in> block_bytes h (unat sz)"
    with disj have "x \<notin> block_bytes (h - sizeof_ptr) 8" by auto
    then show "mem s' x = mem s x"
      by (subst s') (simp add: store_ptr_def emit_def write_ptr_frame)
  qed
  from disj pay meta bound frame show ?thesis by simp
qed

theorem payload_within_raw_block_witness:
  "is_power_of_two 16 \<and> unat (64 :: size_t) + unat (16 :: size_t) + 8 < (2::nat) ^ 64
   \<and> malloc_fn (fixed_platform 0x1000) boot (raw_request 64 16) = 0x1000
   \<and> valid_block 0x1000 (raw_request 64 16)
   \<and> fst (aligned_malloc (fixed_platform 0x1000) boot 64 16) = 0x1010
   \<and> block_bytes 0x1010 64 \<inter> block_bytes 0x1008 8 = {}
   \<and> block_bytes 0x1010 64 \<subseteq> block_bytes 0x1000 88
   \<and> unat (0x1010 :: uintptr_t) + unat (64 :: size_t) \<le> unat (0x1000 :: uintptr_t) + 88"
proof -
  let ?run = "aligned_malloc (fixed_platform 0x1000) boot 64 16"
  have p: "is_power_of_two 16" by code_simp
  have nwr: "unat (64 :: size_t) + unat (16 :: size_t) + 8 < (2::nat) ^ 64" by simp
  have m: "malloc_fn (fixed_platform 0x1000) boot (raw_request 64 16) = 0x1000"
    by (simp add: fixed_platform_def)
  have q: "raw_request 64 16 = 88" by (simp add: raw_request_def sizeof_ptr_def)
  have v: "valid_block 0x1000 (raw_request 64 16)" by (simp add: q valid_block_def)
  have h: "fst ?run = 0x1010" by (simp add: run_fixed aligned_addr_def sizeof_ptr_def)
  have pr: "?run = (0x1010, snd ?run)" using h by (metis prod.collapse)
  show ?thesis
    using p nwr m v h payload_within_raw_block [OF p nwr m v pr]
    by (simp add: q sizeof_ptr_def)
qed

text \<open>
  C5 as stated, for every size, fails: with size \<open>2 ^ 64 - 1\<close> and alignment 16 the
  request wraps to 23 bytes; on the valid 23-byte block at \<open>0x1000\<close> the handle is
  \<open>0x1010\<close>, the payload runs far past the end of the block, and wrapping around
  the address space it covers the metadata byte at \<open>0x1008\<close>.
\<close>

theorem payload_within_raw_block_counterexample:
  "is_power_of_two 16
   \<and> valid_block 0x1000 (raw_request 0xFFFFFFFFFFFFFFFF 16)
   \<and> malloc_fn (fixed_platform 0x1000) boot (raw_request 0xFFFFFFFFFFFFFFFF 16) = 0x1000
   \<and> fst (aligned_malloc (fixed_platform 0x1000) boot 0xFFFFFFFFFFFFFFFF 16) = 0x1010
   \<and> \<not> (unat (0x1010 :: uintptr_t) + unat (0xFFFFFFFFFFFFFFFF :: size_t)
          \<le> unat (0x1000 :: uintptr_t) + unat (raw_request 0xFFFFFFFFFFFFFFFF 16))
   \<and> 0x1008 \<in> block_bytes 0x1010 (unat (0xFFFFFFFFFFFFFFFF :: size_t)) \<inter> block_bytes (0x1010 - sizeof_ptr) 8"
proof -
  have p: "is_power_of_two 16" by code_simp
  have q: "raw_request 0xFFFFFFFFFFFFFFFF 16 = 23" by (simp add: raw_request_def sizeof_ptr_def)
  have v: "valid_block 0x1000 (raw_request 0xFFFFFFFFFFFFFFFF 16)" by (simp add: q valid_block_def)
  have m: "malloc_fn (fixed_platform 0x1000) boot (raw_request 0xFFFFFFFFFFFFFFFF 16) = 0x1000"
    by (simp add: fixed_platform_def)
  have h: "fst (aligned_malloc (fixed_platform 0x1000) boot 0xFFFFFFFFFFFFFFFF 16) = 0x1010"
    by (simp add: run_fixed aligned_addr_def sizeof_ptr_def)
  have o: "0x1008 \<in> block_bytes 0x1010 (unat (0xFFFFFFFFFFFFFFFF :: size_t)) \<inter> block_bytes (0x1010 - sizeof_ptr) 8"
    by (simp add: in_block_bytes sizeof_ptr_def)
  show ?thesis using p v m h o by (simp add: q)
qed

text \<open>
  C7 (zero size). For every power-of-two alignment, \<open>aligned_malloc 0 alignment\<close> on
  a valid raw block of the requested \<open>alignment + sizeof_ptr\<close> bytes returns a non-null
  handle that is a multiple of the alignment.
\<close>

theorem aligned_malloc_zero_size:
  assumes p: "is_power_of_two alignment"
    and v: "valid_block (malloc_fn pf s (raw_request 0 alignment)) (raw_request 0 alignment)"
  shows "fst (aligned_malloc pf s 0 alignment) \<noteq> 0
       \<and> unat (fst (aligned_malloc pf s 0 alignment)) mod unat alignment = 0"
proof -
  let ?r = "malloc_fn pf s (raw_request 0 alignment)"
  have nz: "?r \<noteq> 0" using v by (simp add: valid_block_def)
  have nw: "unat ?r + unat alignment + 8 < 2 ^ 64"
    using v by (simp add: valid_block_def unat_raw_request_zero [OF p])
  have h: "fst (aligned_malloc pf s 0 alignment) = aligned_addr ?r alignment"
    by (simp add: aligned_malloc_nonnull [OF refl nz])
  have "0 < unat (aligned_addr ?r alignment)" using headroom(2) [OF p nw] by linarith
  then have "aligned_addr ?r alignment \<noteq> 0" by (auto simp: unat_gt_0)
  then show ?thesis unfolding h by (simp add: aligned_addr_mod [OF p])
qed

theorem aligned_malloc_zero_size_witness:
  "is_power_of_two 64
   \<and> valid_block (malloc_fn (fixed_platform 0x2008) boot (raw_request 0 64)) (raw_request 0 64)
   \<and> fst (aligned_malloc (fixed_platform 0x2008) boot 0 64) = 0x2040
   \<and> fst (aligned_malloc (fixed_platform 0x2008) boot 0 64) \<noteq> 0
   \<and> unat (fst (aligned_malloc (fixed_platform 0x2008) boot 0 64)) mod unat (64 :: size_t) = 0"
proof -
  have p: "is_power_of_two 64" by code_simp
  have v: "valid_block (malloc_fn (fixed_platform 0x2008) boot (raw_request 0 64)) (raw_request 0 64)"
    by (simp add: fixed_platform_def valid_block_def raw_request_def sizeof_ptr_def)
  have h: "fst (aligned_malloc (fixed_platform 0x2008) boot 0 64) = 0x2040"
    by (simp add: run_fixed aligned_addr_def sizeof_ptr_def)
  show ?thesis using p v h aligned_malloc_zero_size [OF p v] by simp
qed

text \<open>
  C9 (the request can wrap). The request is \<open>size + alignment + 8\<close> modulo
  \<open>2 ^ 64\<close>. For size \<open>2 ^ 64 - 1\<close> and alignment 16 it is 23: strictly smaller
  than the size, and that is what \<open>malloc\<close> is asked for.
\<close>

theorem raw_request_wraps:
  "unat (raw_request sz alignment) = (unat sz + unat alignment + 8) mod 2 ^ 64
   \<and> is_power_of_two 16
   \<and> raw_request 0xFFFFFFFFFFFFFFFF 16 = 23
   \<and> raw_request 0xFFFFFFFFFFFFFFFF 16 < 0xFFFFFFFFFFFFFFFF
   \<and> malloc_requests (trace (snd (aligned_malloc pf s 0xFFFFFFFFFFFFFFFF 16)))
       = malloc_requests (trace s) @ [23]
   \<and> unat (raw_request 0xFFFFFFFFFFFFFFFF 16) < unat (0xFFFFFFFFFFFFFFFF :: size_t) + unat (16 :: size_t) + 8"
proof -
  have p: "is_power_of_two 16" by code_simp
  have q: "raw_request 0xFFFFFFFFFFFFFFFF 16 = 23" by (simp add: raw_request_def sizeof_ptr_def)
  have t: "malloc_requests (trace (snd (aligned_malloc pf s 0xFFFFFFFFFFFFFFFF 16)))
       = malloc_requests (trace s) @ [23]"
    by (simp add: malloc_requests_aligned_malloc q)
  show ?thesis using p t by (simp add: q unat_raw_request_mod)
qed

text \<open>
  C10 (alignment 0). The mask \<open>NOT (0 - 1)\<close> is 0, so the aligned address is 0
  whatever the raw address. On a valid raw block \<open>aligned_malloc\<close> then returns 0
  after storing the raw address at \<open>0 - sizeof_ptr\<close>, the top 8 bytes of the address
  space, which are not a slot inside the raw block.
\<close>

theorem zero_alignment:
  assumes m: "malloc_fn pf s (raw_request sz 0) = raw_mem"
    and v: "valid_block raw_mem (raw_request sz 0)"
  shows "NOT (0 - 1 :: size_t) = 0
       \<and> aligned_addr raw_mem 0 = 0
       \<and> aligned_malloc pf s sz 0
           = (0, s\<lparr>mem := write_ptr (mem s) (0 - sizeof_ptr) raw_mem,
                    trace := trace s @ [Malloc (raw_request sz 0) raw_mem, Store (0 - sizeof_ptr) raw_mem]\<rparr>)
       \<and> \<not> block_bytes (0 - sizeof_ptr) 8 \<subseteq> block_bytes raw_mem (unat (raw_request sz 0))"
proof -
  have nz: "raw_mem \<noteq> 0" using v by (simp add: valid_block_def)
  have a0: "aligned_addr raw_mem 0 = 0" by (simp add: aligned_addr_def)
  have run: "aligned_malloc pf s sz 0
           = (0, s\<lparr>mem := write_ptr (mem s) (0 - sizeof_ptr) raw_mem,
                    trace := trace s @ [Malloc (raw_request sz 0) raw_mem, Store (0 - sizeof_ptr) raw_mem]\<rparr>)"
    by (simp add: aligned_malloc_nonnull [OF m nz] a0 store_ptr_def emit_def)
  have top: "(- 1 :: uintptr_t) \<in> block_bytes (0 - sizeof_ptr) 8"
    by (simp add: in_block_bytes sizeof_ptr_def)
  have lt: "unat raw_mem < 2 ^ 64" using unsigned_less [of raw_mem] by simp
  have um: "unat (- 1 :: uintptr_t) = 2 ^ 64 - 1"
    by (simp add: unsigned_minus_1_eq_mask mask_eq_exp_minus_1)
  have "unat (- 1 - raw_mem) = unat (- 1 :: uintptr_t) - unat raw_mem"
    by (rule unat_diff_le) (use lt um in simp)
  then have out: "(- 1 :: uintptr_t) \<notin> block_bytes raw_mem (unat (raw_request sz 0))"
    using v um by (simp add: in_block_bytes valid_block_def, linarith)
  from top out have "\<not> block_bytes (0 - sizeof_ptr) 8 \<subseteq> block_bytes raw_mem (unat (raw_request sz 0))"
    by blast
  with a0 run show ?thesis by simp
qed

theorem zero_alignment_witness:
  "malloc_fn (fixed_platform 0x1000) boot (raw_request 64 0) = 0x1000
   \<and> valid_block 0x1000 (raw_request 64 0)
   \<and> fst (aligned_malloc (fixed_platform 0x1000) boot 64 0) = 0
   \<and> trace (snd (aligned_malloc (fixed_platform 0x1000) boot 64 0))
       = [Malloc 72 0x1000, Store 0xFFFFFFFFFFFFFFF8 0x1000]"
proof -
  have m: "malloc_fn (fixed_platform 0x1000) boot (raw_request 64 0) = 0x1000"
    by (simp add: fixed_platform_def)
  have q: "raw_request 64 0 = 72" by (simp add: raw_request_def sizeof_ptr_def)
  have v: "valid_block 0x1000 (raw_request 64 0)" by (simp add: q valid_block_def)
  have tb: "trace boot = []" by (simp add: boot_def)
  show ?thesis using m v zero_alignment [OF m v] by (simp add: q tb sizeof_ptr_def)
qed

section \<open>What the benchmark driver does\<close>

lemma for_loop_funpow: "for_loop body i n s = (body ^^ nat (n - i)) s"
proof (induction body i n s rule: for_loop.induct)
  case (1 body i iterations s)
  show ?case
  proof (cases "i < iterations")
    case True
    then have n: "nat (iterations - i) = Suc (nat (iterations - (i + 1)))" by simp
    have "for_loop body i iterations s = for_loop body (i + 1) iterations (body s)"
      using True by (simp add: for_loop.simps [of body i])
    also have "\<dots> = (body ^^ nat (iterations - (i + 1))) (body s)"
      using 1 True by simp
    also have "\<dots> = (body ^^ nat (iterations - i)) s"
      unfolding n by (simp add: funpow_swap1)
    finally show ?thesis .
  next
    case False
    then show ?thesis by (simp add: for_loop.simps [of body i])
  qed
qed

text \<open>
  A concrete run, one iteration on the fixture platform: the events in order, and
  the two lines written.
\<close>

lemma benchmark_sample_run:
  "trace (benchmark (fixed_platform 0x1000) 64 16 1 boot)
     = [Now 0, AlignedAlloc 16 64 0x1000, Free 0x1000, Now 3000,
        Now 4000, Malloc 88 0x1000, Store 0x1008 0x1000, Load 0x1008 0x1000, Free 0x1000,
        Now 9000]
   \<and> out (benchmark (fixed_platform 0x1000) 64 16 1 boot)
     = ''std::aligned_alloc: 3 us'' @ [CHR 0x0A] @ ''aligned_malloc: 5 us'' @ [CHR 0x0A]"
  by (simp add: benchmark_def for_loop_funpow now_def emit_def print_def reference_round_def
      custom_round_def std_aligned_alloc_def free_def aligned_malloc_def malloc_def aligned_free_def
      load_ptr_def store_ptr_def fixed_platform_def boot_def raw_request_def aligned_addr_def
      sizeof_ptr_def read_write_ptr Let_def split_def timing_line_def show_int_def show_nat.simps
      digit_def)

lemma reference_round_effect:
  "out (reference_round pf sz a s) = out s"
  "aligned_alloc_requests (trace (reference_round pf sz a s)) = aligned_alloc_requests (trace s) @ [(a, sz)]"
  "malloc_requests (trace (reference_round pf sz a s)) = malloc_requests (trace s)"
  by (simp_all add: reference_round_def std_aligned_alloc_def free_def emit_def Let_def
        aligned_alloc_requests_append malloc_requests_append)

lemma aligned_free_effect:
  "out (aligned_free s h) = out s"
  "aligned_alloc_requests (trace (aligned_free s h)) = aligned_alloc_requests (trace s)"
  "malloc_requests (trace (aligned_free s h)) = malloc_requests (trace s)"
  by (simp_all add: aligned_free_def load_ptr_def free_def emit_def Let_def
        aligned_alloc_requests_append malloc_requests_append)

lemma aligned_malloc_effect:
  "out (snd (aligned_malloc pf s sz a)) = out s"
  "aligned_alloc_requests (trace (snd (aligned_malloc pf s sz a))) = aligned_alloc_requests (trace s)"
  by (simp_all add: aligned_malloc_def malloc_def store_ptr_def emit_def Let_def
        aligned_alloc_requests_append)

lemma custom_round_effect:
  "out (custom_round pf sz a s) = out s"
  "aligned_alloc_requests (trace (custom_round pf sz a s)) = aligned_alloc_requests (trace s)"
  "malloc_requests (trace (custom_round pf sz a s)) = malloc_requests (trace s) @ [raw_request sz a]"
  by (simp_all add: custom_round_def split_def Let_def aligned_free_effect aligned_malloc_effect
        malloc_requests_aligned_malloc)

lemma reference_rounds:
  "out ((reference_round pf sz a ^^ k) s) = out s
   \<and> aligned_alloc_requests (trace ((reference_round pf sz a ^^ k) s))
       = aligned_alloc_requests (trace s) @ replicate k (a, sz)
   \<and> malloc_requests (trace ((reference_round pf sz a ^^ k) s)) = malloc_requests (trace s)"
  by (induction k) (simp_all add: reference_round_effect replicate_append_same)

lemma custom_rounds:
  "out ((custom_round pf sz a ^^ k) s) = out s
   \<and> aligned_alloc_requests (trace ((custom_round pf sz a ^^ k) s))
       = aligned_alloc_requests (trace s)
   \<and> malloc_requests (trace ((custom_round pf sz a ^^ k) s))
       = malloc_requests (trace s) @ replicate k (raw_request sz a)"
  by (induction k) (simp_all add: custom_round_effect replicate_append_same)

lemma now_effect:
  "out (snd (now pf s)) = out s"
  "aligned_alloc_requests (trace (snd (now pf s))) = aligned_alloc_requests (trace s)"
  "malloc_requests (trace (snd (now pf s))) = malloc_requests (trace s)"
  by (simp_all add: now_def emit_def Let_def aligned_alloc_requests_append malloc_requests_append)

lemma print_effect:
  "out (print str s) = out s @ str"
  "trace (print str s) = trace s"
  by (simp_all add: print_def)

lemma benchmark_effect:
  "(\<exists>t1 t2. out (benchmark pf sz a n s)
        = out s @ timing_line ''std::aligned_alloc: '' t1 @ timing_line ''aligned_malloc: '' t2)
   \<and> aligned_alloc_requests (trace (benchmark pf sz a n s))
       = aligned_alloc_requests (trace s) @ replicate (nat n) (a, sz)
   \<and> malloc_requests (trace (benchmark pf sz a n s))
       = malloc_requests (trace s) @ replicate (nat n) (raw_request sz a)"
  by (simp add: benchmark_def split_def Let_def for_loop_funpow print_effect now_effect
        reference_rounds custom_rounds) blast

lemma digit_not_newline: "d < 10 \<Longrightarrow> digit d \<noteq> CHR 0x0A"
proof -
  assume "d < 10"
  then have "digit d \<in> set ''0123456789''"
    unfolding digit_def by (intro nth_mem) simp
  then show ?thesis by auto
qed

lemma show_nat_no_newline: "CHR 0x0A \<notin> set (show_nat n)"
proof (induction n rule: show_nat.induct)
  case (1 n)
  show ?case
  proof (cases "n < 10")
    case True
    then show ?thesis using digit_not_newline [of n] by (simp add: show_nat.simps [of n])
  next
    case False
    then show ?thesis
      using 1 digit_not_newline [of "n mod 10"] by (simp add: show_nat.simps [of n])
  qed
qed

lemma show_int_no_newline: "CHR 0x0A \<notin> set (show_int i)"
  by (simp add: show_int_def show_nat_no_newline)

lemma line_count_append: "line_count (xs @ ys) = line_count xs + line_count ys"
  by (simp add: line_count_def)

lemma line_count_none: "CHR 0x0A \<notin> set xs \<Longrightarrow> line_count xs = 0"
  by (induction xs) (auto simp: line_count_def)

lemma line_count_timing_line:
  "CHR 0x0A \<notin> set label \<Longrightarrow> line_count (timing_line label t) = 1"
  by (simp add: timing_line_def line_count_append line_count_none show_int_no_newline)
     (simp add: line_count_def)

lemma digit_value_digit: "d < 10 \<Longrightarrow> digit_value (digit d) = Some d"
proof -
  assume "d < 10"
  then have "d \<in> set [0..<10]" by simp
  moreover have "\<forall>d \<in> set [0..<10]. digit_value (digit d) = Some d" by code_simp
  ultimately show ?thesis by blast
qed

lemma digit_not_minus: "d < 10 \<Longrightarrow> digit d \<noteq> CHR ''-''"
  using digit_value_digit [of d] by (auto simp: digit_value_def)

lemma read_digits_snoc:
  "read_digits acc (xs @ [c]) =
     (case read_digits acc xs of None \<Rightarrow> None
      | Some v \<Rightarrow> (case digit_value c of None \<Rightarrow> None | Some d \<Rightarrow> Some (10 * v + d)))"
  by (induction xs arbitrary: acc) (auto split: option.splits)

lemma show_nat_shape: "show_nat n \<noteq> [] \<and> hd (show_nat n) \<noteq> CHR ''-'' \<and> read_digits 0 (show_nat n) = Some n"
proof (induction n rule: show_nat.induct)
  case (1 n)
  show ?case
  proof (cases "n < 10")
    case True
    then show ?thesis
      by (simp add: show_nat.simps [of n] digit_value_digit digit_not_minus)
  next
    case False
    then have ih: "show_nat (n div 10) \<noteq> []" "hd (show_nat (n div 10)) \<noteq> CHR ''-''"
      "read_digits 0 (show_nat (n div 10)) = Some (n div 10)"
      using 1 by simp_all
    have "read_digits 0 (show_nat n) = Some (10 * (n div 10) + n mod 10)"
      using False ih(3) by (simp add: show_nat.simps [of n] read_digits_snoc digit_value_digit)
    then show ?thesis using False ih(1,2) by (simp add: show_nat.simps [of n])
  qed
qed

lemma read_int_show_int: "read_int (show_int i) = Some i"
proof (cases "i < 0")
  case True
  then show ?thesis
    using show_nat_shape [of "nat (- i)"] by (simp add: read_int_def show_int_def read_nat_def)
next
  case False
  obtain c cs where cs: "show_nat (nat i) = c # cs"
    using show_nat_shape [of "nat i"] by (cases "show_nat (nat i)") auto
  then have "c \<noteq> CHR ''-''" using show_nat_shape [of "nat i"] by simp
  then show ?thesis
    using False cs show_nat_shape [of "nat i"]
    by (simp add: read_int_def show_int_def read_nat_def)
qed

lemma reference_round_spec: "reference_round pf sz a = spec_reference_pair pf sz a"
  by (rule ext)
     (simp add: reference_round_def spec_reference_pair_def std_aligned_alloc_def free_def
        emit_def Let_def)

lemma custom_round_spec: "custom_round pf sz a = spec_custom_pair pf sz a"
  by (rule ext) (simp add: custom_round_def spec_custom_pair_def split_def Let_def)

lemma benchmark_spec: "benchmark pf sz a n s = spec_row pf (sz, a, nat n) s"
  by (simp add: benchmark_def spec_row_def spec_timed_loop_def now_def print_def emit_def
        timing_line_def for_loop_funpow reference_round_spec custom_round_spec Let_def)

lemma main_spec: "main pf s = (0, fold (spec_row pf) spec_matrix s)"
  by (simp add: main_def spec_matrix_def benchmark_spec Let_def)

text \<open>
  C8 (the benchmark matrix). \<open>main\<close> returns exit code 0 and does exactly what the
  specification's driver does on the five rows (64,16,100000), (128,32,100000),
  (256,64,100000), (1024,64,100000), (1048576,64,1000), in that order: for each row
  the reference loop is timed and reported first, then the custom loop, and the
  number on each line is the microsecond count of the difference between the clock
  readings taken just after and just before the loop the label names. The number is
  written in decimal (reading it back gives the count). Ten lines are appended in
  all; the reference allocator receives (alignment, size) and \<open>malloc\<close> receives
  \<open>size + alignment + 8\<close>, each as many times as the row's iteration count.
\<close>

theorem main_runs_matrix:
  "main pf s = (0, fold (spec_row pf) spec_matrix s)
   \<and> read_int (show_int i) = Some i
   \<and> fst (main pf s) = 0
   \<and> (\<exists>r1 c1 r2 c2 r3 c3 r4 c4 r5 c5.
         out (snd (main pf s)) = out s
           @ timing_line ''std::aligned_alloc: '' r1 @ timing_line ''aligned_malloc: '' c1
           @ timing_line ''std::aligned_alloc: '' r2 @ timing_line ''aligned_malloc: '' c2
           @ timing_line ''std::aligned_alloc: '' r3 @ timing_line ''aligned_malloc: '' c3
           @ timing_line ''std::aligned_alloc: '' r4 @ timing_line ''aligned_malloc: '' c4
           @ timing_line ''std::aligned_alloc: '' r5 @ timing_line ''aligned_malloc: '' c5)
   \<and> line_count (out (snd (main pf s))) = line_count (out s) + 10
   \<and> aligned_alloc_requests (trace (snd (main pf s)))
       = aligned_alloc_requests (trace s)
           @ replicate 100000 (16, 64) @ replicate 100000 (32, 128) @ replicate 100000 (64, 256)
           @ replicate 100000 (64, 1024) @ replicate 1000 (64, 1048576)
   \<and> malloc_requests (trace (snd (main pf s)))
       = malloc_requests (trace s)
           @ replicate 100000 88 @ replicate 100000 168 @ replicate 100000 328
           @ replicate 100000 1096 @ replicate 1000 1048648"
proof -
  define s1 where "s1 = benchmark pf 64 16 100000 s"
  define s2 where "s2 = benchmark pf 128 32 100000 s1"
  define s3 where "s3 = benchmark pf 256 64 100000 s2"
  define s4 where "s4 = benchmark pf 1024 64 100000 s3"
  define s5 where "s5 = benchmark pf (1024 * 1024) 64 1000 s4"
  have m: "main pf s = (0, s5)"
    by (simp add: main_def Let_def s1_def s2_def s3_def s4_def s5_def)
  have q: "raw_request 64 16 = 88" "raw_request 128 32 = 168" "raw_request 256 64 = 328"
    "raw_request 1024 64 = 1096" "raw_request 1048576 64 = 1048648"
    by (simp_all add: raw_request_def sizeof_ptr_def)
  note b1 = benchmark_effect [of pf 64 16 100000 s, folded s1_def]
  note b2 = benchmark_effect [of pf 128 32 100000 s1, folded s2_def]
  note b3 = benchmark_effect [of pf 256 64 100000 s2, folded s3_def]
  note b4 = benchmark_effect [of pf 1024 64 100000 s3, folded s4_def]
  note b5 = benchmark_effect [of pf "1024 * 1024" 64 1000 s4, folded s5_def]
  from b1 obtain r1 c1 where o1: "out s1 = out s
      @ timing_line ''std::aligned_alloc: '' r1 @ timing_line ''aligned_malloc: '' c1" by blast
  from b2 obtain r2 c2 where o2: "out s2 = out s1
      @ timing_line ''std::aligned_alloc: '' r2 @ timing_line ''aligned_malloc: '' c2" by blast
  from b3 obtain r3 c3 where o3: "out s3 = out s2
      @ timing_line ''std::aligned_alloc: '' r3 @ timing_line ''aligned_malloc: '' c3" by blast
  from b4 obtain r4 c4 where o4: "out s4 = out s3
      @ timing_line ''std::aligned_alloc: '' r4 @ timing_line ''aligned_malloc: '' c4" by blast
  from b5 obtain r5 c5 where o5: "out s5 = out s4
      @ timing_line ''std::aligned_alloc: '' r5 @ timing_line ''aligned_malloc: '' c5" by blast
  have o: "out s5 = out s
           @ timing_line ''std::aligned_alloc: '' r1 @ timing_line ''aligned_malloc: '' c1
           @ timing_line ''std::aligned_alloc: '' r2 @ timing_line ''aligned_malloc: '' c2
           @ timing_line ''std::aligned_alloc: '' r3 @ timing_line ''aligned_malloc: '' c3
           @ timing_line ''std::aligned_alloc: '' r4 @ timing_line ''aligned_malloc: '' c4
           @ timing_line ''std::aligned_alloc: '' r5 @ timing_line ''aligned_malloc: '' c5"
    by (simp only: o5 o4 o3 o2 o1 append_assoc)
  have lr: "line_count (timing_line ''std::aligned_alloc: '' t) = 1" for t
    by (rule line_count_timing_line) simp
  have lc: "line_count (timing_line ''aligned_malloc: '' t) = 1" for t
    by (rule line_count_timing_line) simp
  have l: "line_count (out s5) = line_count (out s) + 10"
    by (simp only: o line_count_append lr lc)
  have aa: "aligned_alloc_requests (trace s5)
       = aligned_alloc_requests (trace s)
           @ replicate 100000 (16, 64) @ replicate 100000 (32, 128) @ replicate 100000 (64, 256)
           @ replicate 100000 (64, 1024) @ replicate 1000 (64, 1048576)"
    using b1 b2 b3 b4 b5 by simp
  have mr: "malloc_requests (trace s5)
       = malloc_requests (trace s)
           @ replicate 100000 88 @ replicate 100000 168 @ replicate 100000 328
           @ replicate 100000 1096 @ replicate 1000 1048648"
    using b1 b2 b3 b4 b5 by (simp add: q)
  from o have ex: "\<exists>r1 c1 r2 c2 r3 c3 r4 c4 r5 c5.
         out s5 = out s
           @ timing_line ''std::aligned_alloc: '' r1 @ timing_line ''aligned_malloc: '' c1
           @ timing_line ''std::aligned_alloc: '' r2 @ timing_line ''aligned_malloc: '' c2
           @ timing_line ''std::aligned_alloc: '' r3 @ timing_line ''aligned_malloc: '' c3
           @ timing_line ''std::aligned_alloc: '' r4 @ timing_line ''aligned_malloc: '' c4
           @ timing_line ''std::aligned_alloc: '' r5 @ timing_line ''aligned_malloc: '' c5"
    by blast
  have sp: "s5 = fold (spec_row pf) spec_matrix s"
    using main_spec [of pf s] unfolding m by simp
  show ?thesis unfolding m using sp ex l aa mr read_int_show_int [of i] by simp
qed

end
